theory Spec2Isabelle
  imports Main "HOL-Library.Word"
begin

section \<open>The queue package: interface.go and worker.go\<close>

text \<open>
  \<^verbatim>\<open>type State string\<close> with its four constants \<^verbatim>\<open>Queued\<close>, \<^verbatim>\<open>Processing\<close>,
  \<^verbatim>\<open>Failed\<close> and \<^verbatim>\<open>Finished\<close>.
\<close>

datatype State = Queued | Processing | Failed | Finished

text \<open>
  A \<^verbatim>\<open>context.Context\<close>, as far as the program can observe it: whether its
  cancellation signal has fired.
\<close>

record Context =
  cancelled :: bool

text \<open>
  Go's \<^verbatim>\<open>error\<close> values. \<^verbatim>\<open>nil\<close> is \<open>None\<close> of \<open>error option\<close>. The first two
  are what \<^verbatim>\<open>encoding/json\<close> reports in the model of its decoder below; \<open>ErrorString\<close>
  is any other error, with its text.
\<close>

datatype error = UnmarshalTypeError | DecodeFailed | ErrorString string

text \<open>
  \<^verbatim>\<open>func New(p Processor) (Client, Worker) { return nil, nil }\<close>.
  A value of an interface type is either \<^verbatim>\<open>nil\<close> or an implementation: \<open>'c option\<close>
  for the \<^verbatim>\<open>Client\<close>, \<open>'w option\<close> for the \<^verbatim>\<open>Worker\<close>, whatever the types \<open>'c\<close> and
  \<open>'w\<close> of implementations are.
\<close>

definition New :: "'p \<Rightarrow> 'c option \<times> 'w option" where
  "New p = (None, None)"

section \<open>The pi job: main.go\<close>

type_synonym uint64 = "64 word"

record piComputeData =
  InCircle :: uint64
  Total :: uint64

subsection \<open>Compute\<close>

text \<open>
  What \<^verbatim>\<open>Compute\<close> takes from outside the repository: the \<^verbatim>\<open>float64\<close> type \<open>'f\<close> with
  its multiplication, addition, comparison and the constant 1, and \<^verbatim>\<open>math/rand\<close>: the
  generator state \<open>'r\<close>, \<^verbatim>\<open>rand.New(rand.NewSource(seed))\<close> and \<^verbatim>\<open>r.Float64()\<close>, which
  returns a number and advances the generator.
\<close>

record ('f, 'r) runtime =
  fmul :: "'f \<Rightarrow> 'f \<Rightarrow> 'f"
  fadd :: "'f \<Rightarrow> 'f \<Rightarrow> 'f"
  fle :: "'f \<Rightarrow> 'f \<Rightarrow> bool"
  fone :: "'f"
  NewSource :: "uint64 \<Rightarrow> 'r"
  Float64 :: "'r \<Rightarrow> 'f \<times> 'r"

lemma uint64_succ:
  fixes i n :: uint64
  assumes "i < n"
  shows "unat (i + 1) = Suc (unat i)"
proof -
  have "1 + i \<noteq> 0"
  proof
    assume "1 + i = 0"
    then have "i = - 1" by (metis add_eq_0_iff)
    then have "n \<le> i" by simp
    with assms show False by simp
  qed
  then have "unat (1 + i) = Suc (unat i)" by (rule unatSuc)
  then show ?thesis by (simp add: add.commute)
qed

text \<open>
  The loop \<^verbatim>\<open>for i := uint64(0); i < pcd.Total; i++\<close> from counter \<open>i\<close> on: two draws,
  left to right, the test \<^verbatim>\<open>(x*x)+(y*y) <= 1\<close>, and \<^verbatim>\<open>pcd.InCircle++\<close> on the
  64-bit word.
\<close>

function Compute_loop ::
  "('f, 'r) runtime \<Rightarrow> uint64 \<Rightarrow> 'r \<Rightarrow> piComputeData \<Rightarrow> piComputeData" where
  "Compute_loop rt i r pcd =
     (if i < Total pcd then
        (case Float64 rt r of (x, r1) \<Rightarrow>
         case Float64 rt r1 of (y, r2) \<Rightarrow>
           Compute_loop rt (i + 1) r2
             (if fle rt (fadd rt (fmul rt x x) (fmul rt y y)) (fone rt)
              then pcd\<lparr>InCircle := InCircle pcd + 1\<rparr> else pcd))
      else pcd)"
  by pat_completeness auto
termination
proof (relation "measure (\<lambda>(rt, i, r, pcd). unat (Total pcd) - unat i)")
  show "wf (measure (\<lambda>(rt :: ('f, 'r) runtime, i, r :: 'r, pcd). unat (Total pcd) - unat i))"
    by simp
next
  fix rt :: "('f, 'r) runtime" and i :: uint64 and r :: 'r and pcd :: piComputeData
    and p1 :: "'f \<times> 'r" and x r1 and p2 :: "'f \<times> 'r" and y r2
  assume lt: "i < Total pcd"
  have "unat i < unat (Total pcd)" using lt by (simp add: word_less_nat_alt)
  moreover have "unat (i + 1) = Suc (unat i)" using lt by (rule uint64_succ)
  ultimately show "((rt, i + 1, r2,
      if fle rt (fadd rt (fmul rt x x) (fmul rt y y)) (fone rt)
      then pcd\<lparr>InCircle := InCircle pcd + 1\<rparr> else pcd), rt, i, r, pcd)
    \<in> measure (\<lambda>(rt, i, r, pcd). unat (Total pcd) - unat i)"
    by simp
qed

declare Compute_loop.simps [simp del]

text \<open>
  \<^verbatim>\<open>func (pcd *piComputeData) Compute(ctx context.Context) error\<close>: \<open>now\<close> is the
  reading \<^verbatim>\<open>time.Now().UTC().UnixNano()\<close> that seeds the generator. The result is the
  returned error and the receiver after the call. The context is not read.
\<close>

definition Compute ::
  "('f, 'r) runtime \<Rightarrow> Context \<Rightarrow> uint64 \<Rightarrow> piComputeData \<Rightarrow> error option \<times> piComputeData" where
  "Compute rt ctx now pcd = (None, Compute_loop rt 0 (NewSource rt now) pcd)"

text \<open>
  The points the loop draws in its first \<open>n\<close> rounds from generator state \<open>r\<close>, the test
  it applies to a point, and the number of drawn points that pass it.
\<close>

fun samples :: "('f, 'r) runtime \<Rightarrow> nat \<Rightarrow> 'r \<Rightarrow> ('f \<times> 'f) list" where
  "samples rt 0 r = []"
| "samples rt (Suc n) r =
     (case Float64 rt r of (x, r1) \<Rightarrow>
      case Float64 rt r1 of (y, r2) \<Rightarrow> (x, y) # samples rt n r2)"

definition inside :: "('f, 'r) runtime \<Rightarrow> 'f \<times> 'f \<Rightarrow> bool" where
  "inside rt p = (case p of (x, y) \<Rightarrow> fle rt (fadd rt (fmul rt x x) (fmul rt y y)) (fone rt))"

definition hits :: "('f, 'r) runtime \<Rightarrow> nat \<Rightarrow> 'r \<Rightarrow> nat" where
  "hits rt n r = length (filter (inside rt) (samples rt n r))"

subsection \<open>Process\<close>

text \<open>
  The \<^verbatim>\<open>JobProcessingAccess\<close> interface, as a record of its methods over the
  implementation's job \<open>'j\<close>. \<^verbatim>\<open>GetData\<close> unmarshals the payload into the data it is
  given and \<^verbatim>\<open>SetData\<close> updates the job; the data is the \<^verbatim>\<open>*piComputeData\<close> that
  \<^verbatim>\<open>Process\<close> passes.
\<close>

record 'j JobProcessingAccess =
  ID :: "'j \<Rightarrow> string"
  GetData :: "'j \<Rightarrow> piComputeData \<Rightarrow> error + piComputeData"
  State :: "'j \<Rightarrow> State"
  Error :: "'j \<Rightarrow> string"
  SetData :: "Context \<Rightarrow> 'j \<Rightarrow> piComputeData \<Rightarrow> error option \<times> 'j"

text \<open>
  \<^verbatim>\<open>func (pp piProcessor) Process(ctx context.Context, j queue.JobProcessingAccess) error\<close>,
  with its three early returns. The result is the returned error and the job after the
  call.
\<close>

definition Process ::
  "('f, 'r) runtime \<Rightarrow> Context \<Rightarrow> uint64 \<Rightarrow> 'j JobProcessingAccess \<Rightarrow> 'j \<Rightarrow> error option \<times> 'j" where
  "Process rt ctx now acc j =
     (case GetData acc j \<lparr>InCircle = 0, Total = 0\<rparr> of
        Inl err \<Rightarrow> (Some err, j)
      | Inr pcd \<Rightarrow>
          (case Compute rt ctx now pcd of
             (Some err, pcd') \<Rightarrow> (Some err, j)
           | (None, pcd') \<Rightarrow>
               (case SetData acc ctx j pcd' of
                  (Some err, j') \<Rightarrow> (Some err, j')
                | (None, j') \<Rightarrow> (None, j'))))"

subsection \<open>Marshal and Unmarshal\<close>

text \<open>
  \<^verbatim>\<open>json.NewEncoder(buf).Encode(pcd)\<close> for the struct with the tags \<^verbatim>\<open>json:"i"\<close> and
  \<^verbatim>\<open>json:"t"\<close>: the two members in the order of the fields, each \<^verbatim>\<open>uint64\<close> in
  decimal, and the newline \<^verbatim>\<open>Encode\<close> appends. \<open>FormatUint\<close> is the decimal rendering,
  read off the digit table.
\<close>

definition digit_char :: "nat \<Rightarrow> char" where
  "digit_char d = ''0123456789'' ! d"

fun FormatUint :: "nat \<Rightarrow> string" where
  "FormatUint n =
     (if n < 10 then [digit_char n] else FormatUint (n div 10) @ [digit_char (n mod 10)])"

declare FormatUint.simps [simp del]

definition Encode :: "piComputeData \<Rightarrow> error + string" where
  \<open>Encode pcd =
     Inr (''{"i":'' @ FormatUint (unat (InCircle pcd)) @ [CHR '',''] @
          ''"t":'' @ FormatUint (unat (Total pcd)) @ [CHR ''}''] @ [CHR 0x0A])\<close>

text \<open>
  \<^verbatim>\<open>func (pcd *piComputeData) Marshal() ([]byte, error)\<close>: the bytes of the buffer
  the encoder wrote, or the encoder's error.
\<close>

definition Marshal :: "piComputeData \<Rightarrow> error + string" where
  "Marshal pcd = (case Encode pcd of Inl err \<Rightarrow> Inl err | Inr buf \<Rightarrow> Inr buf)"

text \<open>
  \<^verbatim>\<open>json.NewDecoder(bytes.NewReader(b)).Decode(pcd)\<close>, modelled on the documents that
  are one JSON object whose member names are strings without escapes and whose values
  are unsigned integer literals, with white space wherever JSON allows it. Like the
  library's scanner it reads byte by byte; the phase says what it expects next.
  It decodes the first value of the stream and leaves the rest unread. A member named
  \<^verbatim>\<open>i\<close> or \<^verbatim>\<open>t\<close>, in either case, is stored in its field; a literal that does not
  fit 64 bits leaves the field alone and is reported as \<open>UnmarshalTypeError\<close> once the
  object is closed; other members are skipped; of a repeated member the last one
  stands. A field without a member keeps the receiver's value. Every other document
  ends in \<open>DecodeFailed\<close>: the model does not say which error the library reports for
  it, nor whether the library decodes a document with other kinds of values.
\<close>

definition digit_val :: "char \<Rightarrow> nat option" where
  "digit_val c =
     (if 48 \<le> (of_char c :: nat) \<and> (of_char c :: nat) \<le> 57
      then Some (of_char c - 48) else None)"

definition is_space :: "char \<Rightarrow> bool" where
  "is_space c = (c = CHR '' '' \<or> c = CHR 0x09 \<or> c = CHR 0x0D \<or> c = CHR 0x0A)"

datatype phase =
    BeginValue
  | BeginName bool
  | InName string
  | EndName string
  | BeginNumber string
  | Zero string
  | Digits string nat
  | EndNumber
  | Done
  | Stuck

type_synonym decodeState = "phase \<times> piComputeData \<times> error option"

definition saveError :: "error option \<Rightarrow> error \<Rightarrow> error option" where
  "saveError saved e = (case saved of None \<Rightarrow> Some e | Some e0 \<Rightarrow> Some e0)"

definition store_field ::
  "string \<Rightarrow> nat \<Rightarrow> piComputeData \<times> error option \<Rightarrow> piComputeData \<times> error option" where
  "store_field name v t =
     (case t of (pcd, saved) \<Rightarrow>
        if name = ''i'' \<or> name = ''I'' then
          (if v < 2 ^ 64 then (pcd\<lparr>InCircle := of_nat v\<rparr>, saved)
           else (pcd, saveError saved UnmarshalTypeError))
        else if name = ''t'' \<or> name = ''T'' then
          (if v < 2 ^ 64 then (pcd\<lparr>Total := of_nat v\<rparr>, saved)
           else (pcd, saveError saved UnmarshalTypeError))
        else (pcd, saved))"

definition end_number ::
  "string \<Rightarrow> nat \<Rightarrow> piComputeData \<times> error option \<Rightarrow> char \<Rightarrow> decodeState" where
  "end_number name v t c =
     (if is_space c then (EndNumber, store_field name v t)
      else if c = CHR '','' then (BeginName False, store_field name v t)
      else if c = CHR ''}'' then (Done, store_field name v t)
      else (Stuck, t))"

fun step :: "phase \<Rightarrow> piComputeData \<times> error option \<Rightarrow> char \<Rightarrow> decodeState" where
  "step BeginValue t c =
     (if is_space c then (BeginValue, t)
      else if c = CHR ''{'' then (BeginName True, t)
      else (Stuck, t))"
| "step (BeginName empty_ok) t c =
     (if is_space c then (BeginName empty_ok, t)
      else if c = CHR 0x22 then (InName [], t)
      else if c = CHR ''}'' \<and> empty_ok then (Done, t)
      else (Stuck, t))"
| "step (InName name) t c =
     (if c = CHR 0x22 then (EndName name, t)
      else if c = CHR 0x5C \<or> (of_char c :: nat) < 32 then (Stuck, t)
      else (InName (name @ [c]), t))"
| "step (EndName name) t c =
     (if is_space c then (EndName name, t)
      else if c = CHR '':'' then (BeginNumber name, t)
      else (Stuck, t))"
| "step (BeginNumber name) t c =
     (case digit_val c of
        Some d \<Rightarrow> (if d = 0 then (Zero name, t) else (Digits name d, t))
      | None \<Rightarrow> (if is_space c then (BeginNumber name, t) else (Stuck, t)))"
| "step (Zero name) t c = end_number name 0 t c"
| "step (Digits name v) t c =
     (case digit_val c of
        Some d \<Rightarrow> (Digits name (10 * v + d), t)
      | None \<Rightarrow> end_number name v t c)"
| "step EndNumber t c =
     (if is_space c then (EndNumber, t)
      else if c = CHR '','' then (BeginName False, t)
      else if c = CHR ''}'' then (Done, t)
      else (Stuck, t))"
| "step Done t c = (Done, t)"
| "step Stuck t c = (Stuck, t)"

fun scan :: "decodeState \<Rightarrow> string \<Rightarrow> decodeState" where
  "scan st [] = st"
| "scan (ph, t) (c # cs) =
     (if ph = Done \<or> ph = Stuck then (ph, t) else scan (step ph t c) cs)"

definition Decode :: "string \<Rightarrow> piComputeData \<Rightarrow> error + piComputeData" where
  "Decode b pcd =
     (case scan (BeginValue, pcd, None) b of
        (Done, pcd', None) \<Rightarrow> Inr pcd'
      | (Done, pcd', Some e) \<Rightarrow> Inl e
      | _ \<Rightarrow> Inl DecodeFailed)"

text \<open>
  \<^verbatim>\<open>func (pcd *piComputeData) Unmarshal(b []byte) error\<close>: the receiver after a
  decoding without error, or the error.
\<close>

definition Unmarshal :: "string \<Rightarrow> piComputeData \<Rightarrow> error + piComputeData" where
  "Unmarshal b pcd = Decode b pcd"

subsection \<open>Concrete instances\<close>

text \<open>
  A small deterministic runtime on which the definitions can be run: numbers are
  integers, and the generator state is the list of the numbers still to be drawn, here
  0, 1, 2, 0, 1, 2 whatever the seed. And a job whose payload cannot be read.
\<close>

definition example_runtime :: "(int, int list) runtime" where
  "example_runtime =
     \<lparr>fmul = (*), fadd = (+), fle = (\<le>), fone = 1,
      NewSource = (\<lambda>seed. [0, 1, 2, 0, 1, 2]),
      Float64 = (\<lambda>r. case r of [] \<Rightarrow> (0, []) | x # xs \<Rightarrow> (x, xs))\<rparr>"

definition absent_payload :: "unit JobProcessingAccess" where
  "absent_payload =
     \<lparr>ID = (\<lambda>j. ''j-0''), GetData = (\<lambda>j data. Inl (ErrorString ''no payload'')),
      State = (\<lambda>j. Processing), Error = (\<lambda>j. []),
      SetData = (\<lambda>ctx j data. (None, j))\<rparr>"

section \<open>The job store and the client facade\<close>

text \<open>
  The repository declares the \<^verbatim>\<open>Client\<close> interface and calls it from \<^verbatim>\<open>main\<close>, but
  holds no implementation of it: \<^verbatim>\<open>New\<close> returns nil. The definitions of this section
  follow the specification's sections 3, 4.1, 4.2, 4.5 and 7 instead.
\<close>

text \<open>Modelled from the spec: the error kinds of section 7, which no source file declares.\<close>

datatype engine_error =
  DuplicateID | NotFound | SerializationError | Cancelled | InvalidConfiguration
  | ProcessingError string













section \<open>Properties of Compute\<close>

lemma length_samples: "length (samples rt n r) = n"
  by (induction n arbitrary: r) (auto split: prod.splits)

lemma hits_le: "hits rt n r \<le> n"
  unfolding hits_def using length_filter_le [of "inside rt" "samples rt n r"]
  by (simp add: length_samples)

lemma Compute_loop_Total: "Total (Compute_loop rt i r pcd) = Total pcd"
proof (induction rt i r pcd rule: Compute_loop.induct)
  case (1 rt i r pcd)
  show ?case
  proof (cases "i < Total pcd")
    case False
    then show ?thesis by (subst Compute_loop.simps) simp
  next
    case True
    obtain x r1 where a: "Float64 rt r = (x, r1)" by (cases "Float64 rt r")
    obtain y r2 where b: "Float64 rt r1 = (y, r2)" by (cases "Float64 rt r1")
    from "1.IH" [OF True a [symmetric] b [symmetric]] True a b
    show ?thesis by (subst Compute_loop.simps) (simp split: if_splits)
  qed
qed

lemma Compute_loop_InCircle:
  "InCircle (Compute_loop rt i r pcd) =
     InCircle pcd + of_nat (hits rt (unat (Total pcd) - unat i) r)"
proof (induction rt i r pcd rule: Compute_loop.induct)
  case (1 rt i r pcd)
  show ?case
  proof (cases "i < Total pcd")
    case False
    then have "unat (Total pcd) - unat i = 0" by (simp add: word_less_nat_alt)
    with False show ?thesis by (subst Compute_loop.simps) (simp add: hits_def)
  next
    case True
    obtain x r1 where a: "Float64 rt r = (x, r1)" by (cases "Float64 rt r")
    obtain y r2 where b: "Float64 rt r1 = (y, r2)" by (cases "Float64 rt r1")
    have lt: "unat i < unat (Total pcd)" using True by (simp add: word_less_nat_alt)
    have suc: "unat (i + 1) = Suc (unat i)" using True by (rule uint64_succ)
    have n: "unat (Total pcd) - unat i = Suc (unat (Total pcd) - unat (i + 1))"
      using lt suc by simp
    note ih = "1.IH" [OF True a [symmetric] b [symmetric]]
    show ?thesis
      using True a b ih
      by (subst Compute_loop.simps, subst n) (simp add: hits_def inside_def)
  qed
qed

lemma samples_example:
  "samples example_runtime (Suc (Suc (Suc 0))) [0, 1, 2, 0, 1, 2] = [(0, 1), (2, 0), (1, 2)]"
  by (simp add: example_runtime_def)

lemma hits_example: "hits example_runtime 3 [0, 1, 2, 0, 1, 2] = 1"
  unfolding hits_def numeral_3_eq_3 samples_example by (simp add: inside_def example_runtime_def)

text \<open>
  Claim C10. \<^verbatim>\<open>Compute\<close> accumulates: whatever the data, the clock reading and the
  generator, it leaves \<^verbatim>\<open>Total\<close> as it was and adds to the \<^verbatim>\<open>InCircle\<close> it finds, on
  the 64-bit word and so modulo \<open>2 ^ 64\<close>, the number of drawn points \<open>(x, y)\<close> that pass
  the test \<^verbatim>\<open>(x*x)+(y*y) <= 1\<close>; that number is at most \<^verbatim>\<open>Total\<close>. The earlier
  \<^verbatim>\<open>InCircle\<close> is not reset.
\<close>

theorem Compute_accumulates:
  "Total (snd (Compute rt ctx now pcd)) = Total pcd \<and>
   InCircle (snd (Compute rt ctx now pcd)) =
     InCircle pcd + of_nat (hits rt (unat (Total pcd)) (NewSource rt now)) \<and>
   unat (InCircle (snd (Compute rt ctx now pcd))) =
     (unat (InCircle pcd) + hits rt (unat (Total pcd)) (NewSource rt now)) mod 2 ^ 64 \<and>
   hits rt (unat (Total pcd)) (NewSource rt now) \<le> unat (Total pcd)"
proof -
  let ?k = "hits rt (unat (Total pcd)) (NewSource rt now)"
  have t: "Total (snd (Compute rt ctx now pcd)) = Total pcd"
    by (simp add: Compute_def Compute_loop_Total)
  have i: "InCircle (snd (Compute rt ctx now pcd)) = InCircle pcd + of_nat ?k"
    by (simp add: Compute_def Compute_loop_InCircle)
  have "unat (InCircle pcd + of_nat ?k) = (unat (InCircle pcd) + ?k) mod 2 ^ 64"
    by (simp add: unat_word_ariths unat_of_nat mod_add_right_eq)
  with t i hits_le [of rt "unat (Total pcd)" "NewSource rt now"] show ?thesis by simp
qed

text \<open>
  On the example runtime, three draws of which one passes the test take an \<^verbatim>\<open>InCircle\<close>
  of \<open>2 ^ 64 - 1\<close> around to 0.
\<close>

theorem Compute_accumulates_example:
  "snd (Compute example_runtime \<lparr>cancelled = False\<rparr> 0
          \<lparr>InCircle = 18446744073709551615, Total = 3\<rparr>)
     = \<lparr>InCircle = 0, Total = 3\<rparr>"
proof -
  let ?pcd = "\<lparr>InCircle = 18446744073709551615, Total = 3\<rparr>"
  let ?res = "snd (Compute example_runtime \<lparr>cancelled = False\<rparr> 0 ?pcd)"
  have h: "hits example_runtime (unat (Total ?pcd)) (NewSource example_runtime 0) = 1"
    using hits_example by (simp add: example_runtime_def)
  from Compute_accumulates [of example_runtime "\<lparr>cancelled = False\<rparr>" 0 ?pcd]
  have "Total ?res = 3" and "InCircle ?res = 0"
    unfolding h by simp_all
  then show ?thesis by (cases ?res) simp
qed

text \<open>
  Claim C9. \<^verbatim>\<open>Compute\<close> returns a nil error for every data and every context, a
  cancelled one included; so when \<^verbatim>\<open>Process\<close> returns an error, it is the error of
  \<^verbatim>\<open>GetData\<close>, or \<^verbatim>\<open>GetData\<close> succeeded and it is the error of \<^verbatim>\<open>SetData\<close> on the
  computed data.
\<close>

theorem Compute_returns_nil:
  "fst (Compute rt ctx now pcd) = None \<and>
   (\<forall>err. fst (Process rt ctx now acc j) = Some err \<longrightarrow>
      GetData acc j \<lparr>InCircle = 0, Total = 0\<rparr> = Inl err \<or>
      (\<exists>pcd0. GetData acc j \<lparr>InCircle = 0, Total = 0\<rparr> = Inr pcd0 \<and>
         fst (SetData acc ctx j (snd (Compute rt ctx now pcd0))) = Some err))"
proof -
  have c: "fst (Compute rt ctx now d) = None" for d
    by (simp add: Compute_def)
  have "GetData acc j \<lparr>InCircle = 0, Total = 0\<rparr> = Inl err \<or>
      (\<exists>pcd0. GetData acc j \<lparr>InCircle = 0, Total = 0\<rparr> = Inr pcd0 \<and>
         fst (SetData acc ctx j (snd (Compute rt ctx now pcd0))) = Some err)"
    if p: "fst (Process rt ctx now acc j) = Some err" for err
  proof (cases "GetData acc j \<lparr>InCircle = 0, Total = 0\<rparr>")
    case (Inl e)
    with p show ?thesis by (simp add: Process_def)
  next
    case (Inr pcd0)
    obtain pcd' where k: "Compute rt ctx now pcd0 = (None, pcd')"
      using c [of pcd0] by (cases "Compute rt ctx now pcd0") simp
    obtain r j' where s: "SetData acc ctx j pcd' = (r, j')" by (cases "SetData acc ctx j pcd'")
    from p Inr k s have "r = Some err"
      by (cases r) (simp_all add: Process_def)
    with Inr k s show ?thesis by simp
  qed
  with c show ?thesis by blast
qed

theorem Compute_returns_nil_witness:
  "fst (Compute example_runtime \<lparr>cancelled = True\<rparr> 0 \<lparr>InCircle = 0, Total = 2\<rparr>) = None \<and>
   fst (Process example_runtime \<lparr>cancelled = True\<rparr> 0 absent_payload ()) =
     Some (ErrorString ''no payload'') \<and>
   GetData absent_payload () \<lparr>InCircle = 0, Total = 0\<rparr> = Inl (ErrorString ''no payload'')"
  using Compute_returns_nil [of example_runtime "\<lparr>cancelled = True\<rparr>" 0
      "\<lparr>InCircle = 0, Total = 2\<rparr>" absent_payload "()"]
  by (simp add: Process_def absent_payload_def)

section \<open>Properties of Marshal and Unmarshal\<close>

lemma scan_halt [simp]: "scan (Done, t) cs = (Done, t)" "scan (Stuck, t) cs = (Stuck, t)"
  by (cases cs; simp)+

lemma scan_append: "scan st (xs @ ys) = scan (scan st xs) ys"
proof (induction xs arbitrary: st)
  case Nil
  show ?case by simp
next
  case (Cons c cs)
  obtain ph t where st: "st = (ph, t)" by (cases st)
  show ?case using Cons.IH [of "step ph t c"] by (simp add: st)
qed

lemma digit_val_digit_char:
  assumes "d < 10"
  shows "digit_val (digit_char d) = Some d"
proof -
  from assms have "d \<in> {0, 1, 2, 3, 4, 5, 6, 7, 8, 9}" by auto
  then show ?thesis by (auto simp: digit_val_def digit_char_def)
qed

text \<open>The scanner reads the decimal rendering of \<open>n\<close> back as \<open>n\<close>.\<close>

lemma scan_FormatUint_pos:
  "0 < n \<Longrightarrow> scan (BeginNumber name, t) (FormatUint n) = (Digits name n, t)"
proof (induction n rule: FormatUint.induct)
  case (1 n)
  show ?case
  proof (cases "n < 10")
    case True
    with "1.prems" show ?thesis
      by (subst FormatUint.simps) (simp add: digit_val_digit_char)
  next
    case False
    then have pos: "0 < n div 10" by simp
    have d: "n mod 10 < 10" by simp
    have "scan (BeginNumber name, t) (FormatUint n) =
          scan (Digits name (n div 10), t) [digit_char (n mod 10)]"
      using False "1.IH" [OF False pos]
      by (subst FormatUint.simps) (simp add: scan_append)
    also have "\<dots> = (Digits name (10 * (n div 10) + n mod 10), t)"
      by (simp add: digit_val_digit_char [OF d])
    finally show ?thesis by simp
  qed
qed

lemma scan_FormatUint:
  "scan (BeginNumber name, t) (FormatUint n) = ((if n = 0 then Zero name else Digits name n), t)"
proof (cases "n = 0")
  case True
  then show ?thesis by (subst FormatUint.simps) (simp add: digit_val_digit_char)
next
  case False
  then show ?thesis by (simp add: scan_FormatUint_pos)
qed

lemma scan_comma:
  "scan ((if v = 0 then Zero name else Digits name v), t) [CHR '',''] =
     (BeginName False, store_field name v t)"
  by (simp add: end_number_def digit_val_def is_space_def)

lemma scan_close:
  "scan ((if v = 0 then Zero name else Digits name v), t) [CHR ''}''] =
     (Done, store_field name v t)"
  by (simp add: end_number_def digit_val_def is_space_def)

lemma Decode_Encode:
  assumes "Encode v = Inr b"
  shows "Decode b pcd = Inr v"
proof -
  let ?a = "unat (InCircle v)" and ?t = "unat (Total v)"
  let ?p1 = "pcd\<lparr>InCircle := InCircle v\<rparr>"
  have a: "?a < 2 ^ 64" and t: "?t < 2 ^ 64"
    using unsigned_less [of "InCircle v", where 'a = nat]
      unsigned_less [of "Total v", where 'a = nat] by simp_all
  have b: \<open>b = ''{"i":'' @ FormatUint ?a @ [CHR '',''] @ ''"t":'' @ FormatUint ?t @
                [CHR ''}''] @ [CHR 0x0A]\<close>
    using assms by (simp add: Encode_def)
  have s1: \<open>scan (BeginValue, pcd, None) ''{"i":'' = (BeginNumber ''i'', pcd, None)\<close>
    by (simp add: is_space_def)
  have s2: "scan (BeginNumber ''i'', pcd, None) (FormatUint ?a) =
            ((if ?a = 0 then Zero ''i'' else Digits ''i'' ?a), pcd, None)"
    by (rule scan_FormatUint)
  have s3: "scan ((if ?a = 0 then Zero ''i'' else Digits ''i'' ?a), pcd, None) [CHR '',''] =
            (BeginName False, ?p1, None)"
    using a by (subst scan_comma) (simp add: store_field_def)
  have s4: \<open>scan (BeginName False, ?p1, None) ''"t":'' = (BeginNumber ''t'', ?p1, None)\<close>
    by (simp add: is_space_def)
  have s5: "scan (BeginNumber ''t'', ?p1, None) (FormatUint ?t) =
            ((if ?t = 0 then Zero ''t'' else Digits ''t'' ?t), ?p1, None)"
    by (rule scan_FormatUint)
  have s6: "scan ((if ?t = 0 then Zero ''t'' else Digits ''t'' ?t), ?p1, None) [CHR ''}''] =
            (Done, ?p1\<lparr>Total := Total v\<rparr>, None)"
    using t by (subst scan_close) (simp add: store_field_def)
  have "scan (BeginValue, pcd, None) b = (Done, ?p1\<lparr>Total := Total v\<rparr>, None)"
    unfolding b scan_append s1 s2 s3 s4 s5 s6 by simp
  moreover have "?p1\<lparr>Total := Total v\<rparr> = v" by simp
  ultimately show ?thesis by (simp add: Decode_def)
qed

text \<open>
  Claim C1. The round trip: \<^verbatim>\<open>Marshal\<close> of any \<^verbatim>\<open>piComputeData\<close> \<open>v\<close> succeeds, and
  \<^verbatim>\<open>Unmarshal\<close> of the bytes it returns, into any receiver, succeeds and leaves the
  receiver with the \<^verbatim>\<open>InCircle\<close> and \<^verbatim>\<open>Total\<close> of \<open>v\<close>.
\<close>

theorem Marshal_Unmarshal_roundtrip:
  "(\<exists>b. Marshal v = Inr b) \<and>
   (\<forall>b pcd. Marshal v = Inr b \<longrightarrow> Unmarshal b pcd = Inr v)"
proof -
  have "\<exists>b. Marshal v = Inr b" by (simp add: Marshal_def Encode_def)
  moreover have "Unmarshal b pcd = Inr v" if "Marshal v = Inr b" for b pcd
  proof -
    from that have "Encode v = Inr b" by (simp add: Marshal_def split: sum.splits)
    then show ?thesis unfolding Unmarshal_def by (rule Decode_Encode)
  qed
  ultimately show ?thesis by blast
qed

theorem Marshal_Unmarshal_roundtrip_witness:
  \<open>Marshal \<lparr>InCircle = 785398, Total = 1000000\<rparr> =
     Inr (''{"i":785398,"t":1000000}'' @ [CHR 0x0A]) \<and>
   Unmarshal (''{"i":785398,"t":1000000}'' @ [CHR 0x0A]) \<lparr>InCircle = 7, Total = 9\<rparr> =
     Inr \<lparr>InCircle = 785398, Total = 1000000\<rparr>\<close>
proof -
  have m: \<open>Marshal \<lparr>InCircle = 785398, Total = 1000000\<rparr> =
            Inr (''{"i":785398,"t":1000000}'' @ [CHR 0x0A])\<close>
    by (simp add: Marshal_def Encode_def FormatUint.simps digit_char_def)
  with Marshal_Unmarshal_roundtrip [of "\<lparr>InCircle = 785398, Total = 1000000\<rparr>"]
  show ?thesis by blast
qed

section \<open>The constructor of the queue\<close>

text \<open>
  Claim C2. For every processor, \<^verbatim>\<open>New\<close> returns a nil \<^verbatim>\<open>Client\<close> and a nil
  \<^verbatim>\<open>Worker\<close>: behind the constructor there is no implementation of either interface.
\<close>

theorem New_returns_nil: "fst (New p) = None \<and> snd (New p) = None"
  by (simp add: New_def)

section \<open>Properties of the job store and the client facade\<close>















end
